theory Spec2Isabelle
  imports Main
begin

section \<open>Python values and the operating system, as verify.py sees them\<close>

text \<open>
  A Python \<open>str\<close> is a sequence of Unicode code points. The script prints glyphs
  beyond ASCII (U+2713, U+2717, U+2500, U+1F4C2, ...) and the escape character, so a
  string is modelled as a list of code points; \<open>ascii\<close> embeds an ASCII literal.
\<close>

type_synonym pystr = "nat list"

definition ascii :: "string \<Rightarrow> pystr" where
  "ascii s = map of_char s"

text \<open>\<open>str(n)\<close> for a Python integer: decimal digits, with a sign when negative.\<close>

fun dec :: "nat \<Rightarrow> pystr" where
  "dec n = (if n < 10 then [48 + n] else dec (n div 10) @ [48 + n mod 10])"

declare dec.simps [simp del]

definition str_int :: "int \<Rightarrow> pystr" where
  "str_int i = (if i < 0 then 45 # dec (nat (- i)) else dec (nat i))"

text \<open>
  What \<open>stat\<close> can report about a path once symbolic links are followed, and the
  exceptions the calls of the script can raise.
\<close>

datatype file_kind = Regular | Directory | Other

datatype py_error =
    FileNotFoundError
  | PermissionError
  | NotADirectoryError
  | SymlinkLoop
  | ValueError

text \<open>
  The part of the world the script touches: \<open>fs\<close> is the outcome of \<open>stat\<close> on an
  absolute path, \<open>chdir_outcome\<close> the outcome of \<open>chdir\<close> on an absolute path
  (\<open>None\<close> is success), \<open>cwd\<close> the working directory of the process and
  \<open>stdout\<close> everything written to standard output so far.
\<close>

record world =
  fs :: "pystr \<Rightarrow> py_error + file_kind"
  chdir_outcome :: "pystr \<Rightarrow> py_error option"
  cwd :: pystr
  stdout :: pystr

text \<open>The operating system resolves a relative path against the working directory.\<close>

definition resolve :: "pystr \<Rightarrow> pystr \<Rightarrow> pystr" where
  "resolve base p = (if p \<noteq> [] \<and> hd p = 47 then p else base @ [47] @ p)"

text \<open>
  \<open>os.stat\<close>: \<open>ValueError\<close> for an embedded null character, \<open>FileNotFoundError\<close>
  for the empty path, otherwise what the file system answers.
\<close>

definition os_stat :: "world \<Rightarrow> pystr \<Rightarrow> py_error + file_kind" where
  "os_stat w p =
     (if 0 \<in> set p then Inl ValueError
      else if p = [] then Inl FileNotFoundError
      else fs w (resolve (cwd w) p))"

text \<open>
  \<open>os.path.isfile\<close> and \<open>os.path.isdir\<close> of the standard library call \<open>os.stat\<close>,
  return \<open>False\<close> on \<open>OSError\<close> and \<open>ValueError\<close>, and test the file type otherwise.
\<close>

definition isfile :: "world \<Rightarrow> pystr \<Rightarrow> bool" where
  "isfile w p = (case os_stat w p of Inl e \<Rightarrow> False | Inr k \<Rightarrow> k = Regular)"

definition isdir :: "world \<Rightarrow> pystr \<Rightarrow> bool" where
  "isdir w p = (case os_stat w p of Inl e \<Rightarrow> False | Inr k \<Rightarrow> k = Directory)"

text \<open>\<open>os.chdir\<close> raises when the directory cannot be entered.\<close>

definition os_chdir :: "pystr \<Rightarrow> world \<Rightarrow> py_error + world" where
  "os_chdir p w =
     (if 0 \<in> set p then Inl ValueError
      else if p = [] then Inl FileNotFoundError
      else (case chdir_outcome w (resolve (cwd w) p) of
              Some e \<Rightarrow> Inl e
            | None \<Rightarrow> Inr (w\<lparr>cwd := resolve (cwd w) p\<rparr>)))"

text \<open>\<open>print(s)\<close> writes the string and a newline to standard output.\<close>

definition py_print :: "pystr \<Rightarrow> world \<Rightarrow> world" where
  "py_print s w = w\<lparr>stdout := stdout w @ s @ [10]\<rparr>"

section \<open>verify.py\<close>

definition GREEN :: pystr where
  "GREEN = 27 # ascii ''[92m''"

definition RED :: pystr where
  "RED = 27 # ascii ''[91m''"

definition YELLOW :: pystr where
  "YELLOW = 27 # ascii ''[93m''"

definition RESET :: pystr where
  "RESET = 27 # ascii ''[0m''"

definition check_file :: "pystr \<Rightarrow> pystr \<Rightarrow> world \<Rightarrow> bool \<times> world" where
  "check_file path name w =
     (if isfile w path
      then (True, py_print (GREEN @ [0x2713] @ RESET @ ascii '' '' @ name) w)
      else (False,
            py_print (RED @ [0x2717] @ RESET @ ascii '' '' @ name @ ascii '' (NOT FOUND)'') w))"

definition check_dir :: "pystr \<Rightarrow> pystr \<Rightarrow> world \<Rightarrow> bool \<times> world" where
  "check_dir path name w =
     (if isdir w path
      then (True, py_print (GREEN @ [0x2713] @ RESET @ ascii '' '' @ name @ ascii ''/'') w)
      else (False,
            py_print (RED @ [0x2717] @ RESET @ ascii '' '' @ name @ ascii ''/ (NOT FOUND)'') w))"

text \<open>The manifest: the dictionary \<open>checks\<close> in insertion order, and the list \<open>dirs\<close>.\<close>

definition checks :: "(pystr \<times> (pystr \<times> pystr) list) list" where
  "checks =
    [(ascii ''Documentation'',
       [(ascii ''README.md'', ascii ''README''),
        (ascii ''PROJECT_SPEC.md'', ascii ''Project Specification''),
        (ascii ''SETUP.md'', ascii ''Setup Guide''),
        (ascii ''STATUS.md'', ascii ''Implementation Status''),
        (ascii ''SUMMARY.md'', ascii ''Project Summary'')]),
     (ascii ''Backend'',
       [(ascii ''backend/go.mod'', ascii ''Go modules''),
        (ascii ''backend/.env.example'', ascii ''.env example''),
        (ascii ''backend/cmd/api/main.go'', ascii ''API Server''),
        (ascii ''backend/cmd/ws/main.go'', ascii ''WebSocket Server''),
        (ascii ''backend/cmd/media/main.go'', ascii ''Media Server''),
        (ascii ''backend/internal/models/types.go'', ascii ''Data models''),
        (ascii ''backend/internal/database/cassandra.go'', ascii ''Cassandra client''),
        (ascii ''backend/internal/services/nats_services.go'', ascii ''NATS services''),
        (ascii ''backend/internal/handlers/auth.go'', ascii ''Auth handler''),
        (ascii ''backend/internal/cache/memory.go'', ascii ''Memory cache'')]),
     (ascii ''Frontend'',
       [(ascii ''frontend/app.json'', ascii ''Expo config''),
        (ascii ''frontend/package.json'', ascii ''Package config''),
        (ascii ''frontend/tsconfig.json'', ascii ''TypeScript config''),
        (ascii ''frontend/app/store/appState.ts'', ascii ''State management''),
        (ascii ''frontend/app/services/api.ts'', ascii ''API client''),
        (ascii ''frontend/app/hooks/useAppState.ts'', ascii ''Custom hooks''),
        (ascii ''frontend/app/screens/LoginScreen.tsx'', ascii ''Login screen''),
        (ascii ''frontend/app/screens/ChatScreen.tsx'', ascii ''Chat screen''),
        (ascii ''frontend/app/screens/TasksScreen.tsx'', ascii ''Tasks screen''),
        (ascii ''frontend/app/components/MessageList.tsx'', ascii ''Message list''),
        (ascii ''frontend/app/components/MessageInput.tsx'', ascii ''Message input'')]),
     (ascii ''Infrastructure'',
       [(ascii ''docker-compose.yml'', ascii ''Docker Compose''),
        (ascii ''infrastructure/cassandra/init.cql'', ascii ''Cassandra schema''),
        (ascii ''infrastructure/turn/turnserver.conf'', ascii ''TURN config'')]),
     (ascii ''Automation'',
       [(ascii ''Makefile'', ascii ''Makefile''),
        (ascii ''setup.sh'', ascii ''Setup script'')])]"

definition dirs :: "(pystr \<times> pystr) list" where
  "dirs =
    [(ascii ''backend/cmd'', ascii ''Backend commands''),
     (ascii ''backend/internal'', ascii ''Backend internal''),
     (ascii ''frontend/app/screens'', ascii ''Frontend screens''),
     (ascii ''frontend/app/components'', ascii ''Frontend components''),
     (ascii ''infrastructure'', ascii ''Infrastructure'')]"

text \<open>The three local variables that \<open>main\<close> accumulates.\<close>

record tally =
  all_passed :: bool
  total_files :: int
  checked_files :: int

text \<open>One iteration of the inner loop over the files of a category.\<close>

definition file_step :: "pystr \<times> pystr \<Rightarrow> tally \<times> world \<Rightarrow> tally \<times> world" where
  "file_step entry tw =
     (case (entry, tw) of ((file_path, display_name), (t, w)) \<Rightarrow>
        (let t1 = t\<lparr>total_files := total_files t + 1\<rparr>;
             (found, w1) = check_file file_path display_name w
         in if found then (t1\<lparr>checked_files := checked_files t1 + 1\<rparr>, w1)
            else (t1\<lparr>all_passed := False\<rparr>, w1)))"

fun files_loop :: "(pystr \<times> pystr) list \<Rightarrow> tally \<times> world \<Rightarrow> tally \<times> world" where
  "files_loop [] tw = tw"
| "files_loop (entry # files) tw = files_loop files (file_step entry tw)"

text \<open>The outer loop over \<open>checks.items()\<close>: a header, a rule, then the files.\<close>

fun categories_loop ::
  "(pystr \<times> (pystr \<times> pystr) list) list \<Rightarrow> tally \<times> world \<Rightarrow> tally \<times> world" where
  "categories_loop [] tw = tw"
| "categories_loop ((category, files) # rest) (t, w) =
     (let w1 = py_print ([10, 0x1F4C2] @ ascii '' '' @ category @ ascii '':'') w;
          w2 = py_print (replicate 50 0x2500) w1
      in categories_loop rest (files_loop files (t, w2)))"

text \<open>One iteration of the loop over \<open>dirs\<close>.\<close>

definition dir_step :: "pystr \<times> pystr \<Rightarrow> tally \<times> world \<Rightarrow> tally \<times> world" where
  "dir_step entry tw =
     (case (entry, tw) of ((dir_path, display_name), (t, w)) \<Rightarrow>
        (let t1 = t\<lparr>total_files := total_files t + 1\<rparr>;
             (found, w1) = check_dir dir_path display_name w
         in if found then (t1\<lparr>checked_files := checked_files t1 + 1\<rparr>, w1)
            else (t1\<lparr>all_passed := False\<rparr>, w1)))"

fun dirs_loop :: "(pystr \<times> pystr) list \<Rightarrow> tally \<times> world \<Rightarrow> tally \<times> world" where
  "dirs_loop [] tw = tw"
| "dirs_loop (entry # rest) tw = dirs_loop rest (dir_step entry tw)"

text \<open>
  \<open>main\<close> in three parts: the scan (the initial values of the three variables, the
  loop over the categories, the directories section), the report (the summary, the
  banner and the return value), and \<open>main\<close> itself, which prints the title and changes
  to \<open>root\<close>, the value of \<open>Path(__file__).parent\<close>, before it scans. The result is
  the world the call leaves behind and either the exception that left \<open>main\<close> or the
  value it returned.
\<close>

definition scan :: "world \<Rightarrow> tally \<times> world" where
  "scan w =
     (case categories_loop checks
             (\<lparr>all_passed = True, total_files = 0, checked_files = 0\<rparr>, w) of
        (t, w1) \<Rightarrow>
          (let w2 = py_print ([10, 0x1F4C1] @ ascii '' Directories:'') w1;
               w3 = py_print (replicate 50 0x2500) w2
           in dirs_loop dirs (t, w3)))"

definition summary_line :: "tally \<Rightarrow> pystr" where
  "summary_line t =
     [10, 0x1F4CA] @ ascii '' Summary: '' @ str_int (checked_files t) @ ascii ''/''
       @ str_int (total_files t) @ ascii '' items verified'' @ [10]"

definition report :: "tally \<times> world \<Rightarrow> world \<times> int" where
  "report tw =
     (case tw of (t, w) \<Rightarrow>
        (let w1 = py_print (10 # replicate 50 61) w;
             w2 = py_print (summary_line t) w1
         in if all_passed t then
              (let w3 = py_print (GREEN @ [0x2713]
                          @ ascii '' All files and directories present!'' @ RESET @ [10]) w2;
                   w4 = py_print (0x1F680 # ascii '' Next steps:'') w3;
                   w5 = py_print (ascii ''   1. make setup     # Setup development environment'') w4;
                   w6 = py_print (ascii ''   2. make build     # Build services'') w5;
                   w7 = py_print (ascii ''   3. make run       # Run all services'') w6;
                   w8 = py_print (ascii ''   4. make docker    # Start Docker containers'') w7;
                   w9 = py_print ([10, 0x2728] @ ascii '' Or start coding directly!'' @ [10]) w8
               in (w9, 0))
            else
              (let w3 = py_print (RED @ [0x2717] @ ascii '' Some items are missing!''
                          @ RESET @ [10]) w2;
                   w4 = py_print (ascii ''Please ensure all required files exist.'' @ [10]) w3
               in (w4, 1))))"

definition main :: "pystr \<Rightarrow> world \<Rightarrow> world \<times> (py_error + int)" where
  "main root w =
     (let w1 = py_print ([10, 0x1F50D] @ ascii '' Nexus Project Structure Verification''
                 @ [10]) w
      in case os_chdir root w1 of
           Inl e \<Rightarrow> (w1, Inl e)
         | Inr w2 \<Rightarrow> (case report (scan w2) of (w3, rc) \<Rightarrow> (w3, Inr rc)))"

text \<open>
  \<open>sys.exit(main())\<close>: the exit status of the process is the value \<open>main\<close> returns; an
  exception that nothing catches ends the interpreter with status 1.
\<close>

definition exit_status :: "pystr \<Rightarrow> world \<Rightarrow> int" where
  "exit_status root w = (case snd (main root w) of Inl e \<Rightarrow> 1 | Inr rc \<Rightarrow> rc)"

section \<open>Notions used to state the properties\<close>

text \<open>
  What a call wrote: the part of standard output that was added between two worlds. The
  line of one entry is what its check writes; \<open>scan_output\<close> lays the lines out in
  the order of the manifest, \<open>report_output\<close> is what the report writes.
\<close>

definition emitted :: "world \<Rightarrow> world \<Rightarrow> pystr" where
  "emitted w w' = drop (length (stdout w)) (stdout w')"

definition file_line :: "world \<Rightarrow> pystr \<times> pystr \<Rightarrow> pystr" where
  "file_line w e = emitted w (snd (check_file (fst e) (snd e) w))"

definition dir_line :: "world \<Rightarrow> pystr \<times> pystr \<Rightarrow> pystr" where
  "dir_line w e = emitted w (snd (check_dir (fst e) (snd e) w))"

definition category_header :: "pystr \<Rightarrow> pystr" where
  "category_header category =
     [10, 0x1F4C2] @ ascii '' '' @ category @ ascii '':'' @ [10] @ replicate 50 0x2500 @ [10]"

definition scan_output :: "world \<Rightarrow> pystr" where
  "scan_output w =
     concat (map (\<lambda>(category, files). category_header category @ concat (map (file_line w) files))
               checks)
     @ [10, 0x1F4C1] @ ascii '' Directories:'' @ [10] @ replicate 50 0x2500 @ [10]
     @ concat (map (dir_line w) dirs)"

text \<open>The file entries of all categories, in the order the outer loop meets them.\<close>

definition manifest_files :: "(pystr \<times> pystr) list" where
  "manifest_files = concat (map snd checks)"

text \<open>
  The report writes the same text in every world; \<open>report_output\<close> reads it off a run
  of \<open>report\<close> on a world whose standard output is empty.
\<close>

definition blank_world :: world where
  "blank_world =
     \<lparr>fs = (\<lambda>p. Inl FileNotFoundError), chdir_outcome = (\<lambda>p. None), cwd = [47], stdout = []\<rparr>"

definition report_output :: "tally \<Rightarrow> pystr" where
  "report_output t = stdout (fst (report (t, blank_world)))"

definition title_line :: pystr where
  "title_line = [10, 0x1F50D] @ ascii '' Nexus Project Structure Verification'' @ [10]"

text \<open>
  \<open>chdir_ok\<close> is the condition under which \<open>os.chdir(root)\<close> succeeds, and
  \<open>at_root\<close> the world it leaves.
\<close>

definition chdir_ok :: "pystr \<Rightarrow> world \<Rightarrow> bool" where
  "chdir_ok root w \<longleftrightarrow>
     0 \<notin> set root \<and> root \<noteq> [] \<and> chdir_outcome w (resolve (cwd w) root) = None"

definition at_root :: "pystr \<Rightarrow> world \<Rightarrow> world" where
  "at_root root w = w\<lparr>cwd := resolve (cwd w) root\<rparr>"

text \<open>The invariant of the three variables, between any two iterations.\<close>

definition tally_inv :: "tally \<Rightarrow> bool" where
  "tally_inv t \<longleftrightarrow>
     0 \<le> checked_files t \<and> checked_files t \<le> total_files t \<and>
     (all_passed t \<longleftrightarrow> checked_files t = total_files t)"

text \<open>
  Example worlds: a script directory, a disk on which nothing exists, a disk on which
  every \<open>stat\<close> is refused, a disk with one regular file, and a disk that holds the
  whole project below the script directory.
\<close>

definition nexus_root :: pystr where
  "nexus_root = ascii ''/srv/nexus''"

definition empty_disk :: world where
  "empty_disk =
     \<lparr>fs = (\<lambda>p. Inl FileNotFoundError), chdir_outcome = (\<lambda>p. None),
      cwd = ascii ''/home/dev'', stdout = []\<rparr>"

definition locked_disk :: world where
  "locked_disk =
     \<lparr>fs = (\<lambda>p. Inl PermissionError), chdir_outcome = (\<lambda>p. None),
      cwd = ascii ''/home/dev'', stdout = []\<rparr>"


definition complete_tree :: world where
  "complete_tree =
     \<lparr>fs = (\<lambda>p. if p \<in> set (map (\<lambda>e. nexus_root @ [47] @ fst e) dirs) then Inr Directory
                else if p \<in> set (map (\<lambda>e. nexus_root @ [47] @ fst e) manifest_files)
                then Inr Regular
                else Inl FileNotFoundError),
      chdir_outcome = (\<lambda>p. None), cwd = ascii ''/home/dev'', stdout = []\<rparr>"

section \<open>The checks and the loops\<close>

text \<open>
  Printing and checking leave the file system and the working directory alone, and the
  two existence tests read nothing else.
\<close>

lemma py_print_sel [simp]:
  "fs (py_print s w) = fs w"
  "cwd (py_print s w) = cwd w"
  "chdir_outcome (py_print s w) = chdir_outcome w"
  "stdout (py_print s w) = stdout w @ s @ [10]"
  by (simp_all add: py_print_def)

lemma os_stat_cong: "fs w' = fs w \<Longrightarrow> cwd w' = cwd w \<Longrightarrow> os_stat w' p = os_stat w p"
  by (simp add: os_stat_def)

lemma isfile_cong: "fs w' = fs w \<Longrightarrow> cwd w' = cwd w \<Longrightarrow> isfile w' p = isfile w p"
  by (simp add: isfile_def os_stat_def)

lemma isdir_cong: "fs w' = fs w \<Longrightarrow> cwd w' = cwd w \<Longrightarrow> isdir w' p = isdir w p"
  by (simp add: isdir_def os_stat_def)

lemma check_file_sel [simp]:
  "fst (check_file p n w) = isfile w p"
  "fs (snd (check_file p n w)) = fs w"
  "cwd (snd (check_file p n w)) = cwd w"
  "chdir_outcome (snd (check_file p n w)) = chdir_outcome w"
  by (simp_all add: check_file_def)

lemma check_dir_sel [simp]:
  "fst (check_dir p n w) = isdir w p"
  "fs (snd (check_dir p n w)) = fs w"
  "cwd (snd (check_dir p n w)) = cwd w"
  "chdir_outcome (snd (check_dir p n w)) = chdir_outcome w"
  by (simp_all add: check_dir_def)

lemma file_step_eq:
  "file_step (p, n) (t, w) =
     (if isfile w p
      then t\<lparr>total_files := total_files t + 1, checked_files := checked_files t + 1\<rparr>
      else t\<lparr>total_files := total_files t + 1, all_passed := False\<rparr>,
      snd (check_file p n w))"
  by (simp add: file_step_def Let_def split_beta)

lemma dir_step_eq:
  "dir_step (p, n) (t, w) =
     (if isdir w p
      then t\<lparr>total_files := total_files t + 1, checked_files := checked_files t + 1\<rparr>
      else t\<lparr>total_files := total_files t + 1, all_passed := False\<rparr>,
      snd (check_dir p n w))"
  by (simp add: dir_step_def Let_def split_beta)

lemma files_loop_result:
  "files_loop es (t, w) = (t', w') \<Longrightarrow>
     fs w' = fs w \<and> cwd w' = cwd w \<and> chdir_outcome w' = chdir_outcome w \<and>
     total_files t' = total_files t + int (length es) \<and>
     checked_files t' = checked_files t + int (length (filter (\<lambda>e. isfile w (fst e)) es)) \<and>
     (all_passed t' \<longleftrightarrow> all_passed t \<and> (\<forall>e \<in> set es. isfile w (fst e)))"
proof (induction es arbitrary: t w)
  case Nil
  then show ?case by simp
next
  case (Cons e es)
  obtain p n where e: "e = (p, n)" by (cases e)
  let ?w = "snd (check_file p n w)"
  have same: "\<And>q. isfile ?w q = isfile w q"
    by (rule isfile_cong) simp_all
  from Cons.prems have "files_loop es (fst (file_step (p, n) (t, w)), ?w) = (t', w')"
    by (simp add: e file_step_eq)
  from Cons.IH [OF this] show ?case
    by (simp add: e file_step_eq same)
qed

lemma dirs_loop_result:
  "dirs_loop es (t, w) = (t', w') \<Longrightarrow>
     total_files t' = total_files t + int (length es) \<and>
     checked_files t' = checked_files t + int (length (filter (\<lambda>e. isdir w (fst e)) es)) \<and>
     (all_passed t' \<longleftrightarrow> all_passed t \<and> (\<forall>e \<in> set es. isdir w (fst e)))"
proof (induction es arbitrary: t w)
  case Nil
  then show ?case by simp
next
  case (Cons e es)
  obtain p n where e: "e = (p, n)" by (cases e)
  let ?w = "snd (check_dir p n w)"
  have same: "\<And>q. isdir ?w q = isdir w q"
    by (rule isdir_cong) simp_all
  from Cons.prems have "dirs_loop es (fst (dir_step (p, n) (t, w)), ?w) = (t', w')"
    by (simp add: e dir_step_eq)
  from Cons.IH [OF this] show ?case
    by (simp add: e dir_step_eq same)
qed

text \<open>What the loops write: one line for each entry, in the order of the list.\<close>

lemma check_file_world:
  "snd (check_file p n w) = w\<lparr>stdout := stdout w @ file_line w (p, n)\<rparr>"
  by (simp add: file_line_def emitted_def check_file_def py_print_def)

lemma check_dir_world:
  "snd (check_dir p n w) = w\<lparr>stdout := stdout w @ dir_line w (p, n)\<rparr>"
  by (simp add: dir_line_def emitted_def check_dir_def py_print_def)

lemma file_line_cong:
  "fs w' = fs w \<Longrightarrow> cwd w' = cwd w \<Longrightarrow> file_line w' e = file_line w e"
  by (simp add: file_line_def emitted_def check_file_def py_print_def isfile_cong [of w' w])

lemma dir_line_cong:
  "fs w' = fs w \<Longrightarrow> cwd w' = cwd w \<Longrightarrow> dir_line w' e = dir_line w e"
  by (simp add: dir_line_def emitted_def check_dir_def py_print_def isdir_cong [of w' w])

lemma files_loop_world:
  "snd (files_loop es (t, w)) = w\<lparr>stdout := stdout w @ concat (map (file_line w) es)\<rparr>"
proof (induction es arbitrary: t w)
  case Nil
  show ?case by simp
next
  case (Cons e es)
  obtain p n where e: "e = (p, n)" by (cases e)
  let ?w = "w\<lparr>stdout := stdout w @ file_line w (p, n)\<rparr>"
  have lines: "map (file_line ?w) es = map (file_line w) es"
    by (rule map_cong [OF refl], rule file_line_cong) simp_all
  show ?case
    by (simp add: e file_step_eq check_file_world Cons.IH lines)
qed

lemma dirs_loop_world:
  "snd (dirs_loop es (t, w)) = w\<lparr>stdout := stdout w @ concat (map (dir_line w) es)\<rparr>"
proof (induction es arbitrary: t w)
  case Nil
  show ?case by simp
next
  case (Cons e es)
  obtain p n where e: "e = (p, n)" by (cases e)
  let ?w = "w\<lparr>stdout := stdout w @ dir_line w (p, n)\<rparr>"
  have lines: "map (dir_line ?w) es = map (dir_line w) es"
    by (rule map_cong [OF refl], rule dir_line_cong) simp_all
  show ?case
    by (simp add: e dir_step_eq check_dir_world Cons.IH lines)
qed

text \<open>The loop over the categories and the scan as a whole.\<close>

lemma categories_loop_result:
  "categories_loop cs (t, w) = (t', w') \<Longrightarrow>
     total_files t' = total_files t + int (length (concat (map snd cs))) \<and>
     checked_files t' =
       checked_files t + int (length (filter (\<lambda>e. isfile w (fst e)) (concat (map snd cs)))) \<and>
     (all_passed t' \<longleftrightarrow> all_passed t \<and> (\<forall>e \<in> set (concat (map snd cs)). isfile w (fst e)))"
proof (induction cs arbitrary: t w)
  case Nil
  then show ?case by simp
next
  case (Cons c cs)
  obtain category files where c: "c = (category, files)" by (cases c)
  define w2 where
    "w2 = py_print (replicate 50 0x2500)
            (py_print ([10, 0x1F4C2] @ ascii '' '' @ category @ ascii '':'') w)"
  obtain t1 w3 where inner: "files_loop files (t, w2) = (t1, w3)"
    by (cases "files_loop files (t, w2)")
  have at_w2: "\<And>q. isfile w2 q = isfile w q"
    by (rule isfile_cong) (simp_all add: w2_def)
  have w2: "fs w2 = fs w" "cwd w2 = cwd w"
    by (simp_all add: w2_def)
  from files_loop_result [OF inner]
  have t1: "total_files t1 = total_files t + int (length files)"
    "checked_files t1 = checked_files t + int (length (filter (\<lambda>e. isfile w (fst e)) files))"
    "all_passed t1 \<longleftrightarrow> all_passed t \<and> (\<forall>e \<in> set files. isfile w (fst e))"
    and w3: "fs w3 = fs w" "cwd w3 = cwd w"
    by (simp_all add: at_w2 w2)
  have at_w3: "\<And>q. isfile w3 q = isfile w q"
    by (rule isfile_cong) (simp_all add: w3)
  from Cons.prems have "categories_loop cs (files_loop files (t, w2)) = (t', w')"
    by (simp add: c Let_def w2_def)
  then have "categories_loop cs (t1, w3) = (t', w')"
    by (simp only: inner)
  from Cons.IH [OF this] show ?case
    by (auto simp: c t1 at_w3)
qed

lemma categories_loop_world:
  "snd (categories_loop cs (t, w)) =
     w\<lparr>stdout := stdout w
         @ concat (map (\<lambda>(category, files).
                     category_header category @ concat (map (file_line w) files)) cs)\<rparr>"
proof (induction cs arbitrary: t w)
  case Nil
  show ?case by simp
next
  case (Cons c cs)
  obtain category files where c: "c = (category, files)" by (cases c)
  define w2 where
    "w2 = py_print (replicate 50 0x2500)
            (py_print ([10, 0x1F4C2] @ ascii '' '' @ category @ ascii '':'') w)"
  define w3 where "w3 = snd (files_loop files (t, w2))"
  have w2: "w2 = w\<lparr>stdout := stdout w @ category_header category\<rparr>"
    by (simp add: w2_def py_print_def category_header_def)
  have at_w2: "map (file_line w2) files = map (file_line w) files"
    by (rule map_cong [OF refl], rule file_line_cong) (simp_all add: w2)
  have w3: "w3 = w\<lparr>stdout := stdout w @ category_header category
                      @ concat (map (file_line w) files)\<rparr>"
    by (simp add: w3_def files_loop_world at_w2) (simp add: w2)
  have at_w3: "\<And>fl. map (file_line w3) fl = map (file_line w) fl"
    by (rule map_cong [OF refl], rule file_line_cong) (simp_all add: w3)
  have "categories_loop (c # cs) (t, w) = categories_loop cs (fst (files_loop files (t, w2)), w3)"
    by (simp add: c Let_def w2_def w3_def)
  then show ?case
    by (simp add: Cons.IH at_w3 c) (simp add: w3)
qed

lemma scan_world: "snd (scan w) = w\<lparr>stdout := stdout w @ scan_output w\<rparr>"
proof -
  define t0 where "t0 = \<lparr>all_passed = True, total_files = 0, checked_files = 0\<rparr>"
  define w1 where "w1 = snd (categories_loop checks (t0, w))"
  define w3 where
    "w3 = py_print (replicate 50 0x2500) (py_print ([10, 0x1F4C1] @ ascii '' Directories:'') w1)"
  have w1: "fs w1 = fs w" "cwd w1 = cwd w"
    by (simp_all add: w1_def categories_loop_world)
  have at_w3: "map (dir_line w3) dirs = map (dir_line w) dirs"
    by (rule map_cong [OF refl], rule dir_line_cong) (simp_all add: w3_def w1)
  have "scan w = dirs_loop dirs (fst (categories_loop checks (t0, w)), w3)"
    by (simp add: scan_def split_beta Let_def t0_def w1_def w3_def)
  then have "snd (scan w) = w3\<lparr>stdout := stdout w3 @ concat (map (dir_line w) dirs)\<rparr>"
    by (simp add: dirs_loop_world at_w3)
  also have "\<dots> = w\<lparr>stdout := stdout w @ scan_output w\<rparr>"
    by (simp add: w3_def w1_def categories_loop_world py_print_def scan_output_def)
  finally show ?thesis .
qed

lemma scan_result:
  "total_files (fst (scan w)) = int (length manifest_files) + int (length dirs)"
  "checked_files (fst (scan w)) =
     int (length (filter (\<lambda>e. isfile w (fst e)) manifest_files))
     + int (length (filter (\<lambda>e. isdir w (fst e)) dirs))"
  "all_passed (fst (scan w)) \<longleftrightarrow>
     (\<forall>e \<in> set manifest_files. isfile w (fst e)) \<and> (\<forall>e \<in> set dirs. isdir w (fst e))"
proof -
  define t0 where "t0 = \<lparr>all_passed = True, total_files = 0, checked_files = 0\<rparr>"
  obtain t1 w1 where cats: "categories_loop checks (t0, w) = (t1, w1)"
    by (cases "categories_loop checks (t0, w)")
  define w3 where
    "w3 = py_print (replicate 50 0x2500) (py_print ([10, 0x1F4C1] @ ascii '' Directories:'') w1)"
  obtain t2 w4 where ds: "dirs_loop dirs (t1, w3) = (t2, w4)"
    by (cases "dirs_loop dirs (t1, w3)")
  have w1: "w1 = snd (categories_loop checks (t0, w))"
    by (simp add: cats)
  have at_w3: "\<And>q. isdir w3 q = isdir w q"
    by (rule isdir_cong) (simp_all add: w3_def w1 categories_loop_world)
  have "scan w = dirs_loop dirs (t1, w3)"
    by (simp add: scan_def cats [unfolded t0_def] Let_def w3_def)
  then have sc: "fst (scan w) = t2"
    by (simp add: ds)
  note a = categories_loop_result [OF cats] and b = dirs_loop_result [OF ds]
  show "total_files (fst (scan w)) = int (length manifest_files) + int (length dirs)"
    using a b by (simp add: sc manifest_files_def t0_def)
  show "checked_files (fst (scan w)) =
     int (length (filter (\<lambda>e. isfile w (fst e)) manifest_files))
     + int (length (filter (\<lambda>e. isdir w (fst e)) dirs))"
    using a b by (simp add: sc manifest_files_def t0_def at_w3)
  show "all_passed (fst (scan w)) \<longleftrightarrow>
     (\<forall>e \<in> set manifest_files. isfile w (fst e)) \<and> (\<forall>e \<in> set dirs. isdir w (fst e))"
    using a b by (simp add: sc manifest_files_def t0_def at_w3)
qed

lemma manifest_size: "length manifest_files = 31" "length dirs = 5"
  by (simp_all add: manifest_files_def checks_def dirs_def)

text \<open>The report and \<open>main\<close>.\<close>

lemma report_code: "snd (report (t, w)) = (if all_passed t then 0 else 1)"
  by (simp add: report_def Let_def)

lemma report_world: "fst (report (t, w)) = w\<lparr>stdout := stdout w @ report_output t\<rparr>"
  by (simp add: report_output_def blank_world_def report_def Let_def py_print_def)

lemma report_output_shape:
  "\<exists>banner. report_output t = 10 # replicate 50 61 @ [10] @ summary_line t @ [10] @ banner"
  by (simp add: report_output_def blank_world_def report_def Let_def py_print_def)

lemma scan_output_cong:
  assumes "fs w' = fs w" "cwd w' = cwd w"
  shows "scan_output w' = scan_output w"
proof -
  have "file_line w' = file_line w" "dir_line w' = dir_line w"
    using assms by (auto simp: fun_eq_iff intro: file_line_cong dir_line_cong)
  then show ?thesis
    by (simp add: scan_output_def)
qed

lemma scan_tally_cong:
  assumes "fs w' = fs w" "cwd w' = cwd w"
  shows "fst (scan w') = fst (scan w)"
proof (rule tally.equality)
  have f: "\<And>q. isfile w' q = isfile w q" and d: "\<And>q. isdir w' q = isdir w q"
    by (rule isfile_cong [OF assms], rule isdir_cong [OF assms])
  show "all_passed (fst (scan w')) = all_passed (fst (scan w))"
    by (simp add: scan_result f d)
  show "total_files (fst (scan w')) = total_files (fst (scan w))"
    by (simp add: scan_result)
  show "checked_files (fst (scan w')) = checked_files (fst (scan w))"
    by (simp add: scan_result f d)
qed simp

lemma os_chdir_ok:
  "chdir_ok root w \<Longrightarrow> os_chdir root (py_print s w) = Inr (at_root root (py_print s w))"
  by (simp add: chdir_ok_def os_chdir_def at_root_def)

lemma os_chdir_fails:
  "\<not> chdir_ok root w \<Longrightarrow> \<exists>e. os_chdir root (py_print s w) = Inl e"
  by (auto simp: chdir_ok_def os_chdir_def)

lemma main_unfold:
  "main root w =
     (case os_chdir root (py_print title_line w) of
        Inl e \<Rightarrow> (py_print title_line w, Inl e)
      | Inr w2 \<Rightarrow> (fst (report (scan w2)), Inr (snd (report (scan w2)))))"
  unfolding main_def title_line_def Let_def split_beta ..

lemma main_ok:
  assumes "chdir_ok root w"
  shows "main root w =
    (w\<lparr>cwd := resolve (cwd w) root,
       stdout := stdout w @ title_line @ [10] @ scan_output (at_root root w)
                   @ report_output (fst (scan (at_root root w)))\<rparr>,
     Inr (if all_passed (fst (scan (at_root root w))) then 0 else 1))"
proof -
  define w2 where "w2 = at_root root (py_print title_line w)"
  have same: "fs w2 = fs (at_root root w)" "cwd w2 = cwd (at_root root w)"
    by (simp_all add: w2_def at_root_def)
  have m: "main root w = (fst (report (scan w2)), Inr (snd (report (scan w2))))"
    using os_chdir_ok [OF assms, of title_line]
    by (simp add: main_unfold w2_def)
  have r: "report (scan w2) = report (fst (scan w2), snd (scan w2))"
    by simp
  show ?thesis
    unfolding m r report_code report_world scan_world
      scan_tally_cong [OF same] scan_output_cong [OF same]
    by (simp add: w2_def at_root_def)
qed

lemma main_fails:
  assumes "\<not> chdir_ok root w"
  shows "\<exists>e. main root w = (w\<lparr>stdout := stdout w @ title_line @ [10]\<rparr>, Inl e)"
proof -
  from os_chdir_fails [OF assms, of title_line]
  obtain e where "os_chdir root (py_print title_line w) = Inl e" ..
  then have "main root w = (py_print title_line w, Inl e)"
    by (simp add: main_unfold)
  then show ?thesis
    by (simp add: py_print_def)
qed

lemma length_filter_all: "length (filter P xs) = length xs \<longleftrightarrow> (\<forall>x \<in> set xs. P x)"
proof (induction xs)
  case Nil
  show ?case by simp
next
  case (Cons x xs)
  have "length (filter P xs) \<le> length xs" by simp
  then have "length (filter P xs) \<noteq> Suc (length xs)" by linarith
  with Cons show ?case by auto
qed


lemma main_frame:
  "\<exists>c out. fst (main root w) = w\<lparr>cwd := c, stdout := stdout w @ out\<rparr>"
proof (cases "chdir_ok root w")
  case True
  show ?thesis
    unfolding main_ok [OF True] fst_conv by (intro exI) (rule refl)
next
  case False
  from main_fails [OF this] obtain e
    where "main root w = (w\<lparr>stdout := stdout w @ title_line @ [10]\<rparr>, Inl e)" ..
  then have "fst (main root w) = w\<lparr>cwd := cwd w, stdout := stdout w @ title_line @ [10]\<rparr>"
    by simp
  then show ?thesis by blast
qed

lemma emitted_append [simp]: "emitted w (w'\<lparr>stdout := stdout w @ out\<rparr>) = out"
  by (simp add: emitted_def)

lemma str_int_small: "str_int 0 = [48]" "str_int 36 = [51, 54]"
  by (simp_all add: str_int_def dec.simps)

lemma main_emitted:
  "emitted w (fst (main root w)) =
     title_line @ [10]
     @ (if chdir_ok root w
        then scan_output (at_root root w) @ report_output (fst (scan (at_root root w)))
        else [])"
proof (cases "chdir_ok root w")
  case True
  have "\<And>c out. emitted w (w\<lparr>cwd := c, stdout := stdout w @ out\<rparr>) = out"
    by (simp add: emitted_def)
  with True show ?thesis
    by (simp add: main_ok)
next
  case False
  from main_fails [OF this] obtain e
    where "main root w = (w\<lparr>stdout := stdout w @ title_line @ [10]\<rparr>, Inl e)" ..
  with False show ?thesis by simp
qed

lemma main_result:
  "snd (main root w) = Inr rc \<longleftrightarrow>
     chdir_ok root w \<and> rc = (if all_passed (fst (scan (at_root root w))) then 0 else 1)"
proof (cases "chdir_ok root w")
  case True
  then show ?thesis by (auto simp: main_ok)
next
  case False
  from main_fails [OF this] obtain e where "snd (main root w) = Inl e" by auto
  with False show ?thesis by simp
qed

lemma main_cong:
  assumes "fs w2 = fs w1" "chdir_outcome w2 = chdir_outcome w1"
    and "resolve (cwd w2) root = resolve (cwd w1) root"
  shows "emitted w2 (fst (main root w2)) = emitted w1 (fst (main root w1))"
    and "snd (main root w2) = snd (main root w1)"
proof -
  have ok: "chdir_ok root w2 = chdir_ok root w1"
    using assms by (simp add: chdir_ok_def)
  have same: "fs (at_root root w2) = fs (at_root root w1)"
    "cwd (at_root root w2) = cwd (at_root root w1)"
    using assms by (simp_all add: at_root_def)
  note eqs = scan_tally_cong [OF same] scan_output_cong [OF same]
  show "emitted w2 (fst (main root w2)) = emitted w1 (fst (main root w1))"
    by (simp only: main_emitted ok eqs)
  show "snd (main root w2) = snd (main root w1)"
  proof (cases "chdir_ok root w1")
    case True
    with ok show ?thesis by (simp add: main_ok eqs)
  next
    case False
    with ok have no: "\<not> chdir_ok root w2" by simp
    have fail: "\<And>w. \<not> chdir_ok root w \<Longrightarrow>
        snd (main root w) =
          (case os_chdir root (py_print title_line w) of Inl e \<Rightarrow> Inl e | Inr w' \<Rightarrow> Inl ValueError)"
      by (auto simp: main_unfold chdir_ok_def os_chdir_def split: option.splits)
    have "os_chdir root (py_print title_line w2) = (case os_chdir root (py_print title_line w1) of
        Inl e \<Rightarrow> Inl e | Inr w' \<Rightarrow> Inr (at_root root (py_print title_line w2)))"
      using assms by (simp add: os_chdir_def at_root_def split: option.splits)
    with False no show ?thesis
      by (simp add: fail split: sum.splits)
  qed
qed

text \<open>Every path of the manifest is relative, and no file entry is a directory entry.\<close>

lemma manifest_relative:
  "\<forall>e \<in> set (manifest_files @ dirs). fst e \<noteq> [] \<and> 0 \<notin> set (fst e) \<and> hd (fst e) \<noteq> 47"
  by (simp add: manifest_files_def checks_def dirs_def ascii_def)

lemma os_stat_relative:
  "p \<noteq> [] \<Longrightarrow> 0 \<notin> set p \<Longrightarrow> hd p \<noteq> 47 \<Longrightarrow> os_stat w p = fs w (cwd w @ [47] @ p)"
  by (simp add: os_stat_def resolve_def)

lemma files_are_not_dirs: "fst ` set manifest_files \<inter> fst ` set dirs = {}"
  by (simp add: manifest_files_def checks_def dirs_def ascii_def)

lemma complete_tree_all_found:
  "(\<forall>e \<in> set manifest_files. isfile (at_root nexus_root complete_tree) (fst e)) \<and>
   (\<forall>e \<in> set dirs. isdir (at_root nexus_root complete_tree) (fst e))"
proof (intro conjI ballI)
  have base: "cwd (at_root nexus_root complete_tree) = nexus_root"
    by (simp add: at_root_def resolve_def nexus_root_def ascii_def)
  have look: "fs (at_root nexus_root complete_tree) = fs complete_tree"
    by (simp add: at_root_def)
  {
    fix e assume e: "e \<in> set manifest_files"
    with manifest_relative have "fst e \<noteq> []" "0 \<notin> set (fst e)" "hd (fst e) \<noteq> 47"
      by auto
    then have "os_stat (at_root nexus_root complete_tree) (fst e) =
        fs complete_tree (nexus_root @ [47] @ fst e)"
      by (simp add: os_stat_relative base look)
    moreover from e files_are_not_dirs have "fst e \<notin> fst ` set dirs"
      by blast
    then have "nexus_root @ [47] @ fst e \<notin> set (map (\<lambda>e. nexus_root @ [47] @ fst e) dirs)"
      by auto
    moreover from e
    have "nexus_root @ [47] @ fst e \<in> set (map (\<lambda>e. nexus_root @ [47] @ fst e) manifest_files)"
      by auto
    ultimately show "isfile (at_root nexus_root complete_tree) (fst e)"
      by (simp add: isfile_def complete_tree_def)
  next
    fix e assume e: "e \<in> set dirs"
    with manifest_relative have "fst e \<noteq> []" "0 \<notin> set (fst e)" "hd (fst e) \<noteq> 47"
      by auto
    then have "os_stat (at_root nexus_root complete_tree) (fst e) =
        fs complete_tree (nexus_root @ [47] @ fst e)"
      by (simp add: os_stat_relative base look)
    moreover from e
    have "nexus_root @ [47] @ fst e \<in> set (map (\<lambda>e. nexus_root @ [47] @ fst e) dirs)"
      by auto
    ultimately show "isdir (at_root nexus_root complete_tree) (fst e)"
      by (simp add: isdir_def complete_tree_def)
  }
qed

section \<open>The properties of the specification\<close>



text \<open>
  C2. After the scan \<open>total_files\<close> is 36, the 5 + 10 + 11 + 3 + 2 = 31 file entries
  and the 5 directory entries, whatever is present; \<open>checked_files\<close> is the number of
  entries whose existence test was true; and \<open>all_passed\<close> holds exactly when the two
  counters are equal.
\<close>

theorem scan_counts:
  "map (\<lambda>c. length (snd c)) checks = [5, 10, 11, 3, 2] \<and> length dirs = 5 \<and>
   total_files (fst (scan w)) = 36 \<and>
   checked_files (fst (scan w)) =
     int (length (filter (\<lambda>e. isfile w (fst e)) manifest_files))
     + int (length (filter (\<lambda>e. isdir w (fst e)) dirs)) \<and>
   (all_passed (fst (scan w)) \<longleftrightarrow> checked_files (fst (scan w)) = total_files (fst (scan w)))"
proof -
  let ?f = "length (filter (\<lambda>e. isfile w (fst e)) manifest_files)"
  let ?d = "length (filter (\<lambda>e. isdir w (fst e)) dirs)"
  have le: "?f \<le> length manifest_files" "?d \<le> length dirs"
    by simp_all
  have "(\<forall>e \<in> set manifest_files. isfile w (fst e)) \<and> (\<forall>e \<in> set dirs. isdir w (fst e))
          \<longleftrightarrow> ?f = length manifest_files \<and> ?d = length dirs"
    by (simp only: length_filter_all)
  also have "\<dots> \<longleftrightarrow> int ?f + int ?d = int (length manifest_files) + int (length dirs)"
    using le by linarith
  finally have "all_passed (fst (scan w)) \<longleftrightarrow>
      checked_files (fst (scan w)) = total_files (fst (scan w))"
    by (simp only: scan_result)
  moreover have "map (\<lambda>c. length (snd c)) checks = [5, 10, 11, 3, 2]"
    by (simp add: checks_def)
  ultimately show ?thesis
    by (simp add: scan_result manifest_size)
qed

theorem scan_counts_witness:
  "total_files (fst (scan empty_disk)) = 36 \<and> checked_files (fst (scan empty_disk)) = 0 \<and>
   \<not> all_passed (fst (scan empty_disk)) \<and>
   total_files (fst (scan (at_root nexus_root complete_tree))) = 36 \<and>
   checked_files (fst (scan (at_root nexus_root complete_tree))) = 36 \<and>
   all_passed (fst (scan (at_root nexus_root complete_tree)))"
proof -
  have "\<And>q. \<not> isfile empty_disk q" "\<And>q. \<not> isdir empty_disk q"
    by (simp_all add: isfile_def isdir_def os_stat_def empty_disk_def)
  moreover from complete_tree_all_found
  have "filter (\<lambda>e. isfile (at_root nexus_root complete_tree) (fst e)) manifest_files
          = manifest_files"
    "filter (\<lambda>e. isdir (at_root nexus_root complete_tree) (fst e)) dirs = dirs"
    by (simp_all add: filter_id_conv)
  ultimately show ?thesis
    using scan_counts [of empty_disk] scan_counts [of "at_root nexus_root complete_tree"]
    by (simp add: manifest_size)
qed





text \<open>
  C5. When the script can enter its directory, what a run writes is the title, the
  lines of the scan, a rule, then the summary line with the two counters in decimal,
  \<open>checked_files\<close> before the slash and \<open>total_files\<close> after it, and then the banner.
\<close>

theorem summary_line_printed:
  "chdir_ok root w \<Longrightarrow>
   \<exists>banner.
     stdout (fst (main root w)) =
       stdout w @ title_line @ [10] @ scan_output (at_root root w)
       @ 10 # replicate 50 61 @ [10]
       @ [10, 0x1F4CA] @ ascii '' Summary: ''
       @ str_int (checked_files (fst (scan (at_root root w)))) @ ascii ''/''
       @ str_int (total_files (fst (scan (at_root root w)))) @ ascii '' items verified''
       @ [10] @ [10] @ banner"
proof -
  assume ok: "chdir_ok root w"
  from report_output_shape [of "fst (scan (at_root root w))"] obtain banner
    where "report_output (fst (scan (at_root root w))) =
      10 # replicate 50 61 @ [10] @ summary_line (fst (scan (at_root root w))) @ [10] @ banner" ..
  then have "stdout (fst (main root w)) =
       stdout w @ title_line @ [10] @ scan_output (at_root root w)
       @ 10 # replicate 50 61 @ [10]
       @ [10, 0x1F4CA] @ ascii '' Summary: ''
       @ str_int (checked_files (fst (scan (at_root root w)))) @ ascii ''/''
       @ str_int (total_files (fst (scan (at_root root w)))) @ ascii '' items verified''
       @ [10] @ [10] @ banner"
    by (simp add: main_ok [OF ok] summary_line_def)
  then show ?thesis ..
qed

theorem summary_line_printed_witness:
  "chdir_ok nexus_root empty_disk \<and>
   (\<exists>before banner.
      stdout (fst (main nexus_root empty_disk)) =
        before @ [10, 0x1F4CA] @ ascii '' Summary: 0/36 items verified'' @ [10, 10] @ banner)"
proof -
  have ok: "chdir_ok nexus_root empty_disk"
    by (simp add: chdir_ok_def nexus_root_def empty_disk_def ascii_def)
  have none: "\<And>q. \<not> isfile (at_root nexus_root empty_disk) q"
    "\<And>q. \<not> isdir (at_root nexus_root empty_disk) q"
    by (simp_all add: isfile_def isdir_def os_stat_def at_root_def empty_disk_def)
  have counters: "checked_files (fst (scan (at_root nexus_root empty_disk))) = 0"
    "total_files (fst (scan (at_root nexus_root empty_disk))) = 36"
    by (simp_all add: scan_result none manifest_size)
  from summary_line_printed [OF ok] obtain banner where
    "stdout (fst (main nexus_root empty_disk)) =
       (stdout empty_disk @ title_line @ [10] @ scan_output (at_root nexus_root empty_disk)
        @ 10 # replicate 50 61 @ [10])
       @ [10, 0x1F4CA] @ ascii '' Summary: 0/36 items verified'' @ [10, 10] @ banner"
    by (auto simp: counters str_int_small ascii_def)
  then have "\<exists>before banner.
      stdout (fst (main nexus_root empty_disk)) =
        before @ [10, 0x1F4CA] @ ascii '' Summary: 0/36 items verified'' @ [10, 10] @ banner"
    by blast
  with ok show ?thesis ..
qed

text \<open>
  C6. What a run writes and what it returns depend on the file system and on the
  directory of the script only: two runs that see the same file system, whatever was on
  standard output before, write the same text and end with the same exit status. The
  text is the title and, after the change of directory, the lines of the scan in the
  order of the manifest followed by the report.
\<close>

theorem run_is_deterministic:
  "fs w2 = fs w1 \<Longrightarrow> chdir_outcome w2 = chdir_outcome w1 \<Longrightarrow>
   resolve (cwd w2) root = resolve (cwd w1) root \<Longrightarrow>
     emitted w2 (fst (main root w2)) = emitted w1 (fst (main root w1)) \<and>
     snd (main root w2) = snd (main root w1) \<and>
     exit_status root w2 = exit_status root w1 \<and>
     emitted w1 (fst (main root w1)) =
       title_line @ [10]
       @ (if chdir_ok root w1
          then scan_output (at_root root w1) @ report_output (fst (scan (at_root root w1)))
          else [])"
proof -
  assume same: "fs w2 = fs w1" "chdir_outcome w2 = chdir_outcome w1"
    "resolve (cwd w2) root = resolve (cwd w1) root"
  note eq = main_cong [OF same]
  from eq(2) have "exit_status root w2 = exit_status root w1"
    by (simp only: exit_status_def)
  with eq show ?thesis
    by (simp only: main_emitted [of w1 root] simp_thms)
qed

theorem run_is_deterministic_witness:
  "emitted (fst (main nexus_root empty_disk)) (fst (main nexus_root (fst (main nexus_root empty_disk))))
     = emitted empty_disk (fst (main nexus_root empty_disk)) \<and>
   exit_status nexus_root (fst (main nexus_root empty_disk)) = exit_status nexus_root empty_disk \<and>
   cwd (fst (main nexus_root empty_disk)) \<noteq> cwd empty_disk \<and>
   stdout (fst (main nexus_root empty_disk)) \<noteq> stdout empty_disk"
proof -
  let ?again = "fst (main nexus_root empty_disk)"
  have ok: "chdir_ok nexus_root empty_disk"
    by (simp add: chdir_ok_def nexus_root_def empty_disk_def ascii_def)
  have abs: "\<And>c. resolve c nexus_root = nexus_root"
    by (simp add: resolve_def nexus_root_def ascii_def)
  have "fs ?again = fs empty_disk" "chdir_outcome ?again = chdir_outcome empty_disk"
    "resolve (cwd ?again) nexus_root = resolve (cwd empty_disk) nexus_root"
    by (simp_all add: main_ok [OF ok] abs)
  from run_is_deterministic [OF this]
  have "emitted ?again (fst (main nexus_root ?again)) = emitted empty_disk ?again"
    "exit_status nexus_root ?again = exit_status nexus_root empty_disk"
    by simp_all
  moreover have "cwd ?again \<noteq> cwd empty_disk"
    by (simp add: main_ok [OF ok] abs) (simp add: nexus_root_def empty_disk_def ascii_def)
  moreover have "stdout ?again \<noteq> stdout empty_disk"
    by (simp add: main_ok [OF ok] title_line_def) 
  ultimately show ?thesis by simp
qed





text \<open>
  C9. A run changes nothing but standard output and the working directory of its own
  process: the file system is the same after the run as before it, at every path, and
  what was on standard output before is still there, followed by what the run wrote.
\<close>

theorem run_leaves_file_system_unchanged:
  "fs (fst (main root w)) = fs w \<and>
   chdir_outcome (fst (main root w)) = chdir_outcome w \<and>
   (\<exists>c out. fst (main root w) = w\<lparr>cwd := c, stdout := stdout w @ out\<rparr>)"
proof -
  from main_frame [of root w] obtain c out
    where "fst (main root w) = w\<lparr>cwd := c, stdout := stdout w @ out\<rparr>" by blast
  then show ?thesis by auto
qed

theorem run_leaves_file_system_unchanged_witness:
  "fs (fst (main (ascii ''/srv/nexus'') locked_disk)) (ascii ''/srv/nexus/README.md'') =
     Inl PermissionError \<and>
   chdir_outcome (fst (main (ascii ''/srv/nexus'') locked_disk)) = (\<lambda>p. None)"
  using run_leaves_file_system_unchanged [of "ascii ''/srv/nexus''" locked_disk]
  by (simp add: locked_disk_def)

text \<open>
  C10. The loop invariant of \<open>main\<close>. It holds for the initial values; every iteration,
  over a file or over a directory, adds one to \<open>total_files\<close>, adds one to
  \<open>checked_files\<close> exactly when the entry was found, keeps \<open>all_passed\<close> true exactly
  when it was true and the entry was found, and preserves
  \<open>0 \<le> checked_files \<le> total_files\<close> together with
  \<open>all_passed \<longleftrightarrow> checked_files = total_files\<close>.
\<close>

theorem tally_invariant:
  "tally_inv \<lparr>all_passed = True, total_files = 0, checked_files = 0\<rparr> \<and>
   total_files (fst (file_step (p, n) (t, w))) = total_files t + 1 \<and>
   checked_files (fst (file_step (p, n) (t, w))) =
     checked_files t + (if isfile w p then 1 else 0) \<and>
   (all_passed (fst (file_step (p, n) (t, w))) \<longleftrightarrow> all_passed t \<and> isfile w p) \<and>
   total_files (fst (dir_step (p, n) (t, w))) = total_files t + 1 \<and>
   checked_files (fst (dir_step (p, n) (t, w))) =
     checked_files t + (if isdir w p then 1 else 0) \<and>
   (all_passed (fst (dir_step (p, n) (t, w))) \<longleftrightarrow> all_passed t \<and> isdir w p) \<and>
   (tally_inv t \<longrightarrow>
      tally_inv (fst (file_step (p, n) (t, w))) \<and> tally_inv (fst (dir_step (p, n) (t, w))))"
  by (simp add: tally_inv_def file_step_eq dir_step_eq)

theorem tally_invariant_witness:
  "tally_inv \<lparr>all_passed = True, total_files = 0, checked_files = 0\<rparr> \<and>
   tally_inv (fst (file_step (ascii ''README.md'', ascii ''README'')
                (\<lparr>all_passed = True, total_files = 0, checked_files = 0\<rparr>, locked_disk))) \<and>
   fst (file_step (ascii ''README.md'', ascii ''README'')
          (\<lparr>all_passed = True, total_files = 0, checked_files = 0\<rparr>, locked_disk)) =
     \<lparr>all_passed = False, total_files = 1, checked_files = 0\<rparr>"
proof -
  have "\<not> isfile locked_disk (ascii ''README.md'')"
    by (simp add: isfile_def os_stat_def locked_disk_def ascii_def)
  with tally_invariant [of "ascii ''README.md''" "ascii ''README''"
      "\<lparr>all_passed = True, total_files = 0, checked_files = 0\<rparr>" locked_disk]
  show ?thesis by (simp add: file_step_eq)
qed

end
